theory Spec2Isabelle
  imports Main
begin

section \<open>Pluggable authentication loading: \<open>lib/Authentication.cc\<close>\<close>

text \<open>
  A shallow embedding of \<open>pulsar-client-cpp/lib/Authentication.cc\<close>: the default
  credential provider, the disabled authentication, the registry of loaded library
  handles with its exit hook, the two \<open>AuthFactory::create\<close> paths and the parameter
  string parser that the string path runs before it falls back to the map path.

  The file is sequential code under one mutex; the model is sequential and leaves the
  lock out. The dynamic loader (\<open>dlopen\<close>, \<open>dlsym\<close>, \<open>dlclose\<close>), \<open>atexit\<close> and the
  plugin's constructors are outside the file: the loader and the plugins are an
  environment the functions take as an argument, and the calls made to the loader are
  recorded in the state. A plugin's constructor is foreign C++ code: it returns a
  pointer or it throws, and the file has no \<open>try\<close> block, so what it throws leaves
  \<open>create\<close>. Failures of allocation inside the file's own statements are not modelled.
\<close>

subsection \<open>Strings and \<open>boost::algorithm::split\<close>\<close>

text \<open>
  \<open>boost::is_any_of(seps)\<close> is the predicate "the character is one of \<open>seps\<close>".
\<close>

definition is_any_of :: "string \<Rightarrow> char \<Rightarrow> bool" where
  "is_any_of seps c = (c \<in> set seps)"

text \<open>
  \<open>boost::algorithm::split(result, input, pred)\<close> with the default
  \<open>token_compress_off\<close>: every separator character ends one token and starts the next,
  so an input with \<open>n\<close> separators gives \<open>n + 1\<close> tokens, empty ones included, and the
  empty input gives the single empty token.
\<close>

fun boost_split :: "(char \<Rightarrow> bool) \<Rightarrow> string \<Rightarrow> string list" where
  "boost_split p [] = [[]]"
| "boost_split p (c # cs) =
     (let r = boost_split p cs
      in if p c then [] # r else (c # hd r) # tl r)"

subsection \<open>The parameter map and the parameter string parser\<close>

text \<open>\<open>ParamMap\<close> is \<open>std::map<std::string, std::string>\<close>.\<close>

type_synonym ParamMap = "string \<rightharpoonup> string"

text \<open>
  Lines 154 to 160, the loop over the comma-delimited segments: each one is split on
  \<open>:\<close> and stored with \<open>paramMap[kv[0]] = kv[1]\<close> when the split has exactly two parts.
\<close>

fun parse_segments :: "string list \<Rightarrow> ParamMap \<Rightarrow> ParamMap" where
  "parse_segments [] paramMap = paramMap"
| "parse_segments (seg # params) paramMap =
     (let kv = boost_split (is_any_of '':'') seg
      in parse_segments params
           (if length kv = 2 then paramMap(kv ! 0 \<mapsto> kv ! 1) else paramMap))"

text \<open>
  Lines 150 to 161: \<open>paramMap\<close> starts empty and the string is split on \<open>,\<close> only when
  it is not empty.
\<close>

definition parse_params :: "string \<Rightarrow> ParamMap" where
  "parse_params authParamsString =
     (if authParamsString \<noteq> []
      then parse_segments (boost_split (is_any_of '','') authParamsString) Map.empty
      else Map.empty)"

subsection \<open>\<open>AuthenticationDataProvider\<close> and the disabled authentication\<close>

text \<open>
  \<open>AuthDisabledData\<close> (lines 84 to 88) derives from \<open>AuthenticationDataProvider\<close> and
  overrides nothing, so on it every method is the base-class one of lines 45 to 75. It is
  the only provider class of this file; its constructor ignores its argument.
\<close>

datatype AuthenticationDataProvider = AuthDisabledData

definition new_AuthDisabledData :: "ParamMap \<Rightarrow> AuthenticationDataProvider" where
  "new_AuthDisabledData params = AuthDisabledData"

fun hasDataForTls :: "AuthenticationDataProvider \<Rightarrow> bool" where
  "hasDataForTls AuthDisabledData = False"

fun getTlsCertificates :: "AuthenticationDataProvider \<Rightarrow> string" where
  "getTlsCertificates AuthDisabledData = ''none''"

fun getTlsPrivateKey :: "AuthenticationDataProvider \<Rightarrow> string" where
  "getTlsPrivateKey AuthDisabledData = ''none''"

fun hasDataForHttp :: "AuthenticationDataProvider \<Rightarrow> bool" where
  "hasDataForHttp AuthDisabledData = False"

fun getHttpAuthType :: "AuthenticationDataProvider \<Rightarrow> string" where
  "getHttpAuthType AuthDisabledData = ''none''"

fun getHttpHeaders :: "AuthenticationDataProvider \<Rightarrow> string" where
  "getHttpHeaders AuthDisabledData = ''none''"

fun hasDataFromCommand :: "AuthenticationDataProvider \<Rightarrow> bool" where
  "hasDataFromCommand AuthDisabledData = False"

fun getCommandData :: "AuthenticationDataProvider \<Rightarrow> string" where
  "getCommandData AuthDisabledData = ''none''"

text \<open>A shared pointer may be null: \<open>None\<close>.\<close>

type_synonym AuthenticationDataPtr = "AuthenticationDataProvider option"

text \<open>
  \<open>AuthDisabled\<close> (lines 90 to 104): its constructor stores the provider in the member
  \<open>authData_\<close> (here \<open>authData\<close>: a name cannot end with an underscore), and its
  method name is the constant \<open>none\<close>.
\<close>

record AuthDisabled =
  authData :: AuthenticationDataPtr

definition new_AuthDisabled :: "AuthenticationDataPtr \<Rightarrow> AuthDisabled" where
  "new_AuthDisabled authData' = \<lparr>authData = authData'\<rparr>"

definition getAuthMethodName :: "AuthDisabled \<Rightarrow> string" where
  "getAuthMethodName a = ''none''"

text \<open>
  An \<open>Authentication\<close> object is the disabled one or an object a plugin constructed; the
  plugin's classes are not in this file, so its objects are values of a type parameter.
  An \<open>AuthenticationPtr\<close> may be null.
\<close>

datatype 'p Authentication = AuthDisabledObj AuthDisabled | PluginAuthentication 'p

type_synonym 'p AuthenticationPtr = "'p Authentication option"

text \<open>\<open>AuthenticationPtr(auth)\<close> of a raw pointer a plugin returned (\<open>NULL\<close> is \<open>None\<close>).\<close>

definition AuthenticationPtr_of :: "'p option \<Rightarrow> 'p AuthenticationPtr" where
  "AuthenticationPtr_of auth = map_option PluginAuthentication auth"

definition AuthDisabled_create :: "ParamMap \<Rightarrow> 'p AuthenticationPtr" where
  "AuthDisabled_create params =
     (let authData' = Some (new_AuthDisabledData params)
      in Some (AuthDisabledObj (new_AuthDisabled authData')))"

definition Disabled :: "'p AuthenticationPtr" where
  "Disabled = (let params = Map.empty in AuthDisabled_create params)"

subsection \<open>The loader, the plugins and the factory's static state\<close>

text \<open>
  A library handle is a non-null \<open>void*\<close>. The environment gives, for a path, the handle
  \<open>dlopen\<close> returns (\<open>None\<close> for \<open>NULL\<close>), and for a handle the functions that
  \<open>dlsym(handle, "create")\<close> and \<open>dlsym(handle, "createFromMap")\<close> resolve to (\<open>None\<close>
  for \<open>NULL\<close>); such a function returns a raw pointer to an object, or \<open>NULL\<close>, or it
  throws. The loader is a function of the path: opening an object that is already open
  returns the same handle and counts one more reference.
\<close>

type_synonym handle = nat

text \<open>
  The outcome of a call that may throw: the value it returns, or the exception that
  leaves it, named by a string.
\<close>

datatype 'a outcome = Returns 'a | Throws string

record 'p dl_env =
  dlopen :: "string \<Rightarrow> handle option"
  dlsym_create :: "handle \<Rightarrow> (string \<Rightarrow> 'p option outcome) option"
  dlsym_createFromMap :: "handle \<Rightarrow> (ParamMap \<Rightarrow> 'p option outcome) option"

text \<open>The calls made to the loader, and the functions handed to \<open>atexit\<close>.\<close>

datatype dl_call = Dlopen string | Dlclose handle

datatype exit_callback = Release_handles

text \<open>
  Lines 118 and 119, the static members \<open>loadedLibrariesHandles_\<close> and
  \<open>isShutdownHookRegistered_\<close> of \<open>AuthFactory\<close>, with the two effects on the
  process the file has: the callbacks registered with \<open>atexit\<close> and the loader calls, both
  in the order they were made.
\<close>

record AuthFactory_state =
  loadedLibrariesHandles :: "handle list"
  isShutdownHookRegistered :: bool
  atexit_callbacks :: "exit_callback list"
  dl_calls :: "dl_call list"

definition initial_state :: AuthFactory_state where
  "initial_state =
     \<lparr>loadedLibrariesHandles = [], isShutdownHookRegistered = False,
      atexit_callbacks = [], dl_calls = []\<rparr>"

subsection \<open>\<open>AuthFactory::release_handles\<close>\<close>

text \<open>Lines 123 to 126, the loop that closes every handle of the vector in order.\<close>

fun dlclose_all :: "handle list \<Rightarrow> AuthFactory_state \<Rightarrow> AuthFactory_state" where
  "dlclose_all [] s = s"
| "dlclose_all (h # hs) s = dlclose_all hs (s\<lparr>dl_calls := dl_calls s @ [Dlclose h]\<rparr>)"

definition release_handles :: "AuthFactory_state \<Rightarrow> AuthFactory_state" where
  "release_handles s =
     (dlclose_all (loadedLibrariesHandles s) s)\<lparr>loadedLibrariesHandles := []\<rparr>"

subsection \<open>\<open>AuthFactory::create\<close>\<close>

text \<open>
  Lines 168 to 188, \<open>create(dynamicLibPath, params)\<close> with a \<open>ParamMap\<close>. The call of the
  plugin's constructor at line 184 is not guarded: when it throws, the exception leaves
  \<open>create\<close>, after the handle was pushed at line 180.
\<close>

definition create_ParamMap ::
  "'p dl_env \<Rightarrow> string \<Rightarrow> ParamMap \<Rightarrow> AuthFactory_state
     \<Rightarrow> 'p AuthenticationPtr outcome \<times> AuthFactory_state" where
  "create_ParamMap env dynamicLibPath params s =
     (let s1 = (if \<not> isShutdownHookRegistered s
                then s\<lparr>atexit_callbacks := atexit_callbacks s @ [Release_handles],
                       isShutdownHookRegistered := True\<rparr>
                else s);
          s2 = s1\<lparr>dl_calls := dl_calls s1 @ [Dlopen dynamicLibPath]\<rparr>
      in case dlopen env dynamicLibPath of
           None \<Rightarrow> (Returns (AuthenticationPtr_of None), s2)
         | Some handle \<Rightarrow>
             (let s3 = s2\<lparr>loadedLibrariesHandles := loadedLibrariesHandles s2 @ [handle]\<rparr>
              in case dlsym_createFromMap env handle of
                   None \<Rightarrow> (Returns (AuthenticationPtr_of None), s3)
                 | Some createAuthentication \<Rightarrow>
                     (case createAuthentication params of
                        Throws e \<Rightarrow> (Throws e, s3)
                      | Returns auth \<Rightarrow> (Returns (AuthenticationPtr_of auth), s3))))"

text \<open>
  Lines 130 to 166, \<open>create(dynamicLibPath, authParamsString)\<close> with a string: when the
  library has no \<open>create\<close> symbol, the string is parsed and the map overload is called,
  on the state this call has reached. The call of the plugin's constructor at line 148
  is not guarded either.
\<close>

definition create_string ::
  "'p dl_env \<Rightarrow> string \<Rightarrow> string \<Rightarrow> AuthFactory_state
     \<Rightarrow> 'p AuthenticationPtr outcome \<times> AuthFactory_state" where
  "create_string env dynamicLibPath authParamsString s =
     (let s1 = (if \<not> isShutdownHookRegistered s
                then s\<lparr>atexit_callbacks := atexit_callbacks s @ [Release_handles],
                       isShutdownHookRegistered := True\<rparr>
                else s);
          s2 = s1\<lparr>dl_calls := dl_calls s1 @ [Dlopen dynamicLibPath]\<rparr>
      in case dlopen env dynamicLibPath of
           None \<Rightarrow> (Returns (AuthenticationPtr_of None), s2)
         | Some handle \<Rightarrow>
             (let s3 = s2\<lparr>loadedLibrariesHandles := loadedLibrariesHandles s2 @ [handle]\<rparr>
              in case dlsym_create env handle of
                   Some createAuthentication \<Rightarrow>
                     (case createAuthentication authParamsString of
                        Throws e \<Rightarrow> (Throws e, s3)
                      | Returns auth \<Rightarrow> (Returns (AuthenticationPtr_of auth), s3))
                 | None \<Rightarrow>
                     (let paramMap = parse_params authParamsString
                      in create_ParamMap env dynamicLibPath paramMap s3)))"

text \<open>Lines 112 to 115, \<open>create(dynamicLibPath)\<close>: the map overload on an empty map.\<close>

definition create_path ::
  "'p dl_env \<Rightarrow> string \<Rightarrow> AuthFactory_state
     \<Rightarrow> 'p AuthenticationPtr outcome \<times> AuthFactory_state" where
  "create_path env dynamicLibPath s =
     (let params = Map.empty in create_ParamMap env dynamicLibPath params s)"

subsection \<open>Sequences of calls to \<open>create\<close>\<close>

text \<open>
  The state a call leaves, whether it returned or threw, is the state the next call
  starts from.
\<close>

datatype create_call =
    Create_path string
  | Create_string string string
  | Create_ParamMap string ParamMap

fun do_call :: "'p dl_env \<Rightarrow> create_call \<Rightarrow> AuthFactory_state \<Rightarrow> AuthFactory_state" where
  "do_call env (Create_path path) s = snd (create_path env path s)"
| "do_call env (Create_string path str) s = snd (create_string env path str s)"
| "do_call env (Create_ParamMap path params) s = snd (create_ParamMap env path params s)"

fun run_calls :: "'p dl_env \<Rightarrow> create_call list \<Rightarrow> AuthFactory_state \<Rightarrow> AuthFactory_state" where
  "run_calls env [] s = s"
| "run_calls env (c # cs) s = run_calls env cs (do_call env c s)"

subsection \<open>Reference readings of the parameter grammar\<close>

text \<open>
  The grammar as the specification words it: a segment is well formed when splitting it
  on \<open>:\<close> gives exactly two parts and neither is empty.
\<close>

definition spec_segment_well_formed :: "string \<Rightarrow> bool" where
  "spec_segment_well_formed seg =
     (let kv = boost_split (is_any_of '':'') seg
      in length kv = 2 \<and> kv ! 0 \<noteq> [] \<and> kv ! 1 \<noteq> [])"

definition spec_well_formed_pairs :: "string \<Rightarrow> (string \<times> string) list" where
  "spec_well_formed_pairs s =
     map (\<lambda>seg. (boost_split (is_any_of '':'') seg ! 0, boost_split (is_any_of '':'') seg ! 1))
       (filter spec_segment_well_formed (boost_split (is_any_of '','') s))"

text \<open>
  The grammar by counting colons: a segment with exactly one \<open>:\<close> is the pair of what
  stands before the colon and what stands after it; any other segment is no pair.
\<close>

definition segment_pair :: "string \<Rightarrow> (string \<times> string) option" where
  "segment_pair seg =
     (if count_list seg CHR '':'' = 1
      then Some (takeWhile (\<lambda>c. c \<noteq> CHR '':'') seg,
                 drop 1 (dropWhile (\<lambda>c. c \<noteq> CHR '':'') seg))
      else None)"

definition accepted_pairs :: "string \<Rightarrow> (string \<times> string) list" where
  "accepted_pairs s = List.map_filter segment_pair (boost_split (is_any_of '','') s)"

text \<open>
  Example environments. In \<open>env_map_only\<close> the library \<open>/lib/auth.so\<close> loads as handle 7
  and exports only \<open>createFromMap\<close>, which builds the object named by the parameter
  \<open>method\<close> and returns \<open>NULL\<close> without it. In \<open>env_string_only\<close> the same library
  exports only \<open>create\<close>, which refuses the empty string. In \<open>env_no_symbol\<close> it exports
  neither. In \<open>env_throws\<close> it exports both and each constructor throws. No other path
  loads.
\<close>

definition env_map_only :: "string dl_env" where
  "env_map_only =
     \<lparr>dlopen = (\<lambda>path. if path = ''/lib/auth.so'' then Some 7 else None),
      dlsym_create = (\<lambda>h. None),
      dlsym_createFromMap = (\<lambda>h. Some (\<lambda>params. Returns (params ''method'')))\<rparr>"

definition env_string_only :: "string dl_env" where
  "env_string_only =
     \<lparr>dlopen = (\<lambda>path. if path = ''/lib/auth.so'' then Some 7 else None),
      dlsym_create = (\<lambda>h. Some (\<lambda>str. Returns (if str = [] then None else Some str))),
      dlsym_createFromMap = (\<lambda>h. None)\<rparr>"

definition env_no_symbol :: "string dl_env" where
  "env_no_symbol =
     \<lparr>dlopen = (\<lambda>path. if path = ''/lib/auth.so'' then Some 7 else None),
      dlsym_create = (\<lambda>h. None),
      dlsym_createFromMap = (\<lambda>h. None)\<rparr>"


section \<open>Properties\<close>

subsection \<open>Splitting\<close>

lemma boost_split_nonempty: "boost_split p s \<noteq> []"
  by (induction s) (simp_all add: Let_def)

lemma boost_split_unfold:
  "boost_split p s =
     takeWhile (\<lambda>c. \<not> p c) s #
       (case dropWhile (\<lambda>c. \<not> p c) s of [] \<Rightarrow> [] | _ # rest \<Rightarrow> boost_split p rest)"
  by (induction s) (simp_all add: Let_def boost_split_nonempty split: list.splits)

lemma length_boost_split: "length (boost_split p s) = Suc (length (filter p s))"
  by (induction s) (simp_all add: Let_def boost_split_nonempty)

lemma count_list_filter: "count_list s c = length (filter (\<lambda>x. x = c) s)"
  by (induction s) simp_all

lemma is_any_of_single: "is_any_of [c] = (\<lambda>x. x = c)"
  by (auto simp: is_any_of_def)

lemma boost_split_no_separator: "filter p s = [] \<Longrightarrow> boost_split p s = [s]"
  by (induction s) (simp_all add: Let_def split: if_splits)

lemma boost_split_one_separator:
  assumes "length (filter p s) = 1"
  shows "boost_split p s = [takeWhile (\<lambda>c. \<not> p c) s, drop 1 (dropWhile (\<lambda>c. \<not> p c) s)]"
proof -
  let ?k = "takeWhile (\<lambda>c. \<not> p c) s" and ?d = "dropWhile (\<lambda>c. \<not> p c) s"
  have k: "filter p ?k = []"
    by (auto simp: filter_empty_conv dest: set_takeWhileD)
  have "filter p s = filter p ?k @ filter p ?d"
    by (metis filter_append takeWhile_dropWhile_id)
  with k assms have d: "length (filter p ?d) = 1" by simp
  then obtain c rest where cr: "?d = c # rest" by (cases ?d) auto
  then have "p c" using hd_dropWhile [of "\<lambda>c. \<not> p c" s] by auto
  with d cr have "filter p rest = []" by simp
  then have "boost_split p rest = [rest]" by (rule boost_split_no_separator)
  with cr show ?thesis by (subst boost_split_unfold) simp
qed

lemma split_colon_two:
  "length (boost_split (is_any_of '':'') seg) = 2 \<longleftrightarrow> count_list seg CHR '':'' = 1"
  by (simp add: length_boost_split count_list_filter is_any_of_single)

lemma split_colon_segment_pair:
  assumes "count_list seg CHR '':'' = 1"
  shows "boost_split (is_any_of '':'') seg
           = [takeWhile (\<lambda>c. c \<noteq> CHR '':'') seg, drop 1 (dropWhile (\<lambda>c. c \<noteq> CHR '':'') seg)]"
  using assms boost_split_one_separator [of "\<lambda>x. x = CHR '':''" seg]
  by (simp add: count_list_filter is_any_of_single)

lemma takeWhile_before_char: "c \<notin> set k \<Longrightarrow> takeWhile (\<lambda>x. x \<noteq> c) (k @ c # v) = k"
  by (induction k) auto

lemma dropWhile_before_char: "c \<notin> set k \<Longrightarrow> dropWhile (\<lambda>x. x \<noteq> c) (k @ c # v) = c # v"
  by (induction k) auto

lemma segment_pair_Some_iff:
  "segment_pair seg = Some (k, v)
     \<longleftrightarrow> seg = k @ '':'' @ v \<and> CHR '':'' \<notin> set k \<and> CHR '':'' \<notin> set v"
proof
  assume a: "segment_pair seg = Some (k, v)"
  then have c: "count_list seg CHR '':'' = 1"
    and k: "k = takeWhile (\<lambda>c. c \<noteq> CHR '':'') seg"
    and v: "v = drop 1 (dropWhile (\<lambda>c. c \<noteq> CHR '':'') seg)"
    by (auto simp: segment_pair_def split: if_splits)
  let ?d = "dropWhile (\<lambda>c. c \<noteq> CHR '':'') seg"
  have nk: "CHR '':'' \<notin> set k" using k by (auto dest: set_takeWhileD)
  have seg: "seg = k @ ?d" using k by simp
  from c have "CHR '':'' \<in> set seg" by (metis count_list_0_iff zero_neq_one)
  then have "?d \<noteq> []" by auto
  then obtain x where d: "?d = x # v" using v by (cases ?d) auto
  then have "x = CHR '':''" using hd_dropWhile [of "\<lambda>c. c \<noteq> CHR '':''" seg] by auto
  with d seg have seg': "seg = k @ '':'' @ v" by simp
  have "count_list seg CHR '':'' = count_list k CHR '':'' + 1 + count_list v CHR '':''"
    by (subst seg') (simp add: count_list_filter)
  with c have "count_list v CHR '':'' = 0" by simp
  then have "CHR '':'' \<notin> set v" by (simp add: count_list_0_iff)
  with nk seg' show "seg = k @ '':'' @ v \<and> CHR '':'' \<notin> set k \<and> CHR '':'' \<notin> set v" by simp
next
  assume a: "seg = k @ '':'' @ v \<and> CHR '':'' \<notin> set k \<and> CHR '':'' \<notin> set v"
  then have "count_list seg CHR '':'' = 1"
    by (auto simp: count_list_filter filter_empty_conv)
  moreover have "takeWhile (\<lambda>c. c \<noteq> CHR '':'') seg = k"
    using a by (simp add: takeWhile_before_char)
  moreover have "dropWhile (\<lambda>c. c \<noteq> CHR '':'') seg = '':'' @ v"
    using a by (simp add: dropWhile_before_char)
  ultimately show "segment_pair seg = Some (k, v)"
    by (simp add: segment_pair_def)
qed

subsection \<open>The parser\<close>

lemma parse_segments_step:
  "parse_segments (seg # params) m =
     parse_segments params (case segment_pair seg of None \<Rightarrow> m | Some (k, v) \<Rightarrow> m(k \<mapsto> v))"
proof (cases "count_list seg CHR '':'' = 1")
  case True
  then show ?thesis
    by (simp add: split_colon_segment_pair segment_pair_def)
next
  case False
  then have "length (boost_split (is_any_of '':'') seg) \<noteq> 2"
    by (simp add: split_colon_two)
  with False show ?thesis
    by (simp add: segment_pair_def Let_def)
qed

lemma parse_segments_map_of:
  "parse_segments params m = m ++ map_of (rev (List.map_filter segment_pair params))"
proof (induction params arbitrary: m)
  case Nil
  show ?case by simp
next
  case (Cons seg params)
  show ?case
  proof (cases "segment_pair seg")
    case None
    then show ?thesis
      by (simp only: parse_segments_step Cons.IH) simp
  next
    case (Some kv)
    obtain k v where kv: "kv = (k, v)" by (cases kv)
    have "parse_segments (seg # params) m = parse_segments params (m(k \<mapsto> v))"
      unfolding parse_segments_step Some kv by simp
    also have "\<dots> = m(k \<mapsto> v) ++ map_of (rev (List.map_filter segment_pair params))"
      by (rule Cons.IH)
    also have "\<dots> = m ++ map_of (rev (List.map_filter segment_pair params) @ [(k, v)])"
      by (rule ext) (simp add: map_add_def split: option.splits)
    finally show ?thesis
      using Some kv by simp
  qed
qed

lemma parse_params_map_of: "parse_params s = map_of (rev (accepted_pairs s))"
proof (cases "s = []")
  case True
  then show ?thesis
    by (simp add: parse_params_def accepted_pairs_def segment_pair_def)
next
  case False
  then show ?thesis
    by (simp add: parse_params_def accepted_pairs_def parse_segments_map_of)
qed

lemma parse_segments_append:
  "parse_segments (xs @ ys) m = parse_segments ys (parse_segments xs m)"
  by (induction xs arbitrary: m) (simp_all add: Let_def)

lemma parse_segments_key_untouched:
  assumes "\<forall>seg \<in> set post. length (boost_split (is_any_of '':'') seg) = 2
             \<longrightarrow> boost_split (is_any_of '':'') seg ! 0 \<noteq> k"
  shows "parse_segments post m k = m k"
  using assms by (induction post arbitrary: m) (auto simp: Let_def)

text \<open>
  C1, as the code has it. A comma-delimited segment enters the map exactly when it
  holds one \<open>:\<close>, that is when it is \<open>k:v\<close> with no colon in \<open>k\<close> and none in \<open>v\<close>; the
  key is what stands before the colon and the value what stands after it, and either may
  be empty. A segment with no colon or with several adds nothing. The parsed map is the
  map of these pairs, a later pair overriding an earlier one with the same key.
\<close>

theorem parse_accepts_one_colon_segments:
  "parse_params s = map_of (rev (List.map_filter segment_pair (boost_split (is_any_of '','') s)))
   \<and> (segment_pair seg = Some (k, v)
        \<longleftrightarrow> seg = k @ '':'' @ v \<and> CHR '':'' \<notin> set k \<and> CHR '':'' \<notin> set v)"
  using parse_params_map_of [of s] segment_pair_Some_iff [of seg k v]
  by (simp only: accepted_pairs_def)

theorem parse_accepts_one_colon_segments_witness:
  "parse_params ''x:1,bad,y:,z:1:2'' = [''x'' \<mapsto> ''1'', ''y'' \<mapsto> []]
   \<and> segment_pair ''y:'' = Some (''y'', [])"
  using parse_accepts_one_colon_segments [of "''x:1,bad,y:,z:1:2''" "''y:''" "''y''" "[]"]
  by (simp add: segment_pair_def is_any_of_def Let_def)

text \<open>
  C1 as the specification words it asks for two non-empty parts. The segment \<open>a:\<close>
  splits into \<open>a\<close> and the empty string, which is two parts, and the code stores it.
\<close>

theorem parse_empty_part_counterexample:
  "\<not> spec_segment_well_formed ''a:'' \<and> parse_params ''a:'' ''a'' = Some []"
  by (simp add: spec_segment_well_formed_def parse_params_def is_any_of_def Let_def)

text \<open>
  C2. Parsing \<open>region:us-east,token:abc123\<close> gives exactly the map with \<open>region\<close> bound to
  \<open>us-east\<close> and \<open>token\<close> bound to \<open>abc123\<close>; parsing \<open>bad,entry:1:2,ok:yes\<close> gives
  exactly the map with \<open>ok\<close> bound to \<open>yes\<close>: the segment without a colon and the
  segment with two colons are dropped.
\<close>

theorem parse_params_examples:
  "parse_params ''region:us-east,token:abc123''
     = [''region'' \<mapsto> ''us-east'', ''token'' \<mapsto> ''abc123'']
   \<and> parse_params ''bad,entry:1:2,ok:yes'' = [''ok'' \<mapsto> ''yes'']"
  by (simp add: parse_params_def is_any_of_def Let_def)

text \<open>
  C8, as the code has it. Every entry of the parsed map is the pair of a segment of the
  string that holds exactly one \<open>:\<close>, so no segment with zero or several colons shows in
  it; the keys of the map are the keys of those segments; and when no two of those
  segments have the same key, the entries of the map are exactly their pairs.
\<close>

theorem parsed_entries_are_one_colon_segments:
  "Map.graph (parse_params s) \<subseteq> set (accepted_pairs s)
   \<and> dom (parse_params s) = fst ` set (accepted_pairs s)
   \<and> (distinct (map fst (accepted_pairs s))
        \<longrightarrow> Map.graph (parse_params s) = set (accepted_pairs s))"
proof -
  have sub: "Map.graph (parse_params s) \<subseteq> set (accepted_pairs s)"
    by (auto simp: parse_params_map_of Map.graph_def dest: map_of_SomeD)
  have dom: "dom (parse_params s) = fst ` set (accepted_pairs s)"
    by (simp add: parse_params_map_of dom_map_of_conv_image_fst)
  have "Map.graph (parse_params s) = set (accepted_pairs s)"
    if "distinct (map fst (accepted_pairs s))"
  proof -
    from that have "distinct (map fst (rev (accepted_pairs s)))"
      by (simp add: rev_map [symmetric])
    then have "Map.graph (map_of (rev (accepted_pairs s))) = set (rev (accepted_pairs s))"
      by (auto simp: Map.graph_def dest: map_of_SomeD)
    then show ?thesis by (simp add: parse_params_map_of)
  qed
  with sub dom show ?thesis by blast
qed

theorem parsed_entries_are_one_colon_segments_witness:
  "Map.graph (parse_params ''x:1,bad,y:,z:1:2'') = {(''x'', ''1''), (''y'', [])}
   \<and> set (accepted_pairs ''x:1,bad,y:,z:1:2'') = {(''x'', ''1''), (''y'', [])}"
proof -
  have a: "accepted_pairs ''x:1,bad,y:,z:1:2'' = [(''x'', ''1''), (''y'', [])]"
    by (simp add: accepted_pairs_def segment_pair_def is_any_of_def Let_def)
  show ?thesis
    using parsed_entries_are_one_colon_segments [of "''x:1,bad,y:,z:1:2''"]
    by (simp add: a)
qed

text \<open>
  C8 as stated fails on \<open>a:1,a:2,b:\<close>: the well-formed segment \<open>a:1\<close> is not an entry of
  the map, since \<open>a:2\<close> overwrites it, and the entry of \<open>b\<close> with the empty value comes
  from a segment that has an empty part.
\<close>

theorem parsed_entries_counterexample:
  "(''a'', ''1'') \<in> set (spec_well_formed_pairs ''a:1,a:2,b:'')
   \<and> (''a'', ''1'') \<notin> Map.graph (parse_params ''a:1,a:2,b:'')
   \<and> (''b'', []) \<in> Map.graph (parse_params ''a:1,a:2,b:'')
   \<and> (''b'', []) \<notin> set (spec_well_formed_pairs ''a:1,a:2,b:'')"
  by (simp add: spec_well_formed_pairs_def spec_segment_well_formed_def parse_params_def
      is_any_of_def Let_def Map.graph_def)

text \<open>
  C9. When a segment of the string is accepted with key \<open>k\<close> and value \<open>v\<close> and no segment
  to its right is accepted with key \<open>k\<close>, the map binds \<open>k\<close> to \<open>v\<close>, whatever the segments
  to its left hold: of several accepted segments with one key the last one wins, and the
  map has the one entry for that key.
\<close>

theorem last_accepted_segment_wins:
  assumes split: "boost_split (is_any_of '','') s = pre @ seg # post"
    and seg: "boost_split (is_any_of '':'') seg = [k, v]"
    and post: "\<forall>seg' \<in> set post. length (boost_split (is_any_of '':'') seg') = 2
                 \<longrightarrow> boost_split (is_any_of '':'') seg' ! 0 \<noteq> k"
  shows "parse_params s k = Some v \<and> {v'. (k, v') \<in> Map.graph (parse_params s)} = {v}"
proof -
  have "s \<noteq> []"
  proof
    assume "s = []"
    with split have "pre @ seg # post = [[]]" by simp
    then have "seg = []" by (cases pre) auto
    with seg show False by simp
  qed
  then have "parse_params s = parse_segments (pre @ seg # post) Map.empty"
    by (simp add: parse_params_def split)
  also have "\<dots> = parse_segments post ((parse_segments pre Map.empty)(k \<mapsto> v))"
    by (simp add: parse_segments_append seg)
  finally have "parse_params s k = Some v"
    by (simp add: parse_segments_key_untouched [OF post])
  then show ?thesis
    by (auto simp: Map.graph_def)
qed

theorem last_accepted_segment_wins_witness:
  "parse_params ''a:1,a:3,b:2'' ''a'' = Some ''3''
   \<and> {v'. (''a'', v') \<in> Map.graph (parse_params ''a:1,a:3,b:2'')} = {''3''}"
  using last_accepted_segment_wins
    [of "''a:1,a:3,b:2''" "[''a:1'']" "''a:3''" "[''b:2'']" "''a''" "''3''"]
  by (simp add: is_any_of_def Let_def)

subsection \<open>The effect of one call to \<open>create\<close>\<close>

lemma create_ParamMap_result:
  "fst (create_ParamMap env path params s) =
     (case dlopen env path of
        None \<Rightarrow> Returns None
      | Some h \<Rightarrow>
          (case dlsym_createFromMap env h of
             None \<Rightarrow> Returns None
           | Some f \<Rightarrow>
               (case f params of
                  Throws e \<Rightarrow> Throws e
                | Returns auth \<Rightarrow> Returns (AuthenticationPtr_of auth))))"
  by (simp add: create_ParamMap_def AuthenticationPtr_of_def Let_def
      split: option.splits outcome.splits)

lemma create_ParamMap_handles:
  "loadedLibrariesHandles (snd (create_ParamMap env path params s)) =
     loadedLibrariesHandles s @ (case dlopen env path of None \<Rightarrow> [] | Some h \<Rightarrow> [h])"
  by (simp add: create_ParamMap_def Let_def split: option.splits outcome.splits)

lemma create_ParamMap_dl_calls:
  "dl_calls (snd (create_ParamMap env path params s)) = dl_calls s @ [Dlopen path]"
  by (simp add: create_ParamMap_def Let_def split: option.splits outcome.splits)

lemma create_ParamMap_flag:
  "isShutdownHookRegistered (snd (create_ParamMap env path params s)) = True"
  by (simp add: create_ParamMap_def Let_def split: option.splits outcome.splits)

lemma create_ParamMap_atexit:
  "atexit_callbacks (snd (create_ParamMap env path params s)) =
     atexit_callbacks s @ (if isShutdownHookRegistered s then [] else [Release_handles])"
  by (simp add: create_ParamMap_def Let_def split: option.splits outcome.splits)

lemma create_string_result:
  "fst (create_string env path str s) =
     (case dlopen env path of
        None \<Rightarrow> Returns None
      | Some h \<Rightarrow>
          (case dlsym_create env h of
             Some f \<Rightarrow>
               (case f str of
                  Throws e \<Rightarrow> Throws e
                | Returns auth \<Rightarrow> Returns (AuthenticationPtr_of auth))
           | None \<Rightarrow> fst (create_ParamMap env path (parse_params str) s)))"
  by (simp add: create_string_def create_ParamMap_result AuthenticationPtr_of_def Let_def
      split: option.splits outcome.splits)

lemma create_string_handles:
  "loadedLibrariesHandles (snd (create_string env path str s)) =
     loadedLibrariesHandles s @
       (case dlopen env path of
          None \<Rightarrow> []
        | Some h \<Rightarrow> (case dlsym_create env h of Some f \<Rightarrow> [h] | None \<Rightarrow> [h, h]))"
  by (simp add: create_string_def create_ParamMap_handles Let_def
      split: option.splits outcome.splits)

lemma create_string_dl_calls:
  "dl_calls (snd (create_string env path str s)) =
     dl_calls s @
       (case dlopen env path of
          None \<Rightarrow> [Dlopen path]
        | Some h \<Rightarrow>
            (case dlsym_create env h of
               Some f \<Rightarrow> [Dlopen path]
             | None \<Rightarrow> [Dlopen path, Dlopen path]))"
  by (simp add: create_string_def create_ParamMap_dl_calls Let_def
      split: option.splits outcome.splits)

lemma create_string_flag:
  "isShutdownHookRegistered (snd (create_string env path str s)) = True"
  by (simp add: create_string_def create_ParamMap_flag Let_def
      split: option.splits outcome.splits)

lemma create_string_atexit:
  "atexit_callbacks (snd (create_string env path str s)) =
     atexit_callbacks s @ (if isShutdownHookRegistered s then [] else [Release_handles])"
  by (simp add: create_string_def create_ParamMap_atexit Let_def
      split: option.splits outcome.splits)

lemma do_call_flag: "isShutdownHookRegistered (do_call env c s) = True"
  by (cases c) (simp_all add: create_path_def create_ParamMap_flag create_string_flag)

lemma do_call_atexit:
  "atexit_callbacks (do_call env c s) =
     atexit_callbacks s @ (if isShutdownHookRegistered s then [] else [Release_handles])"
  by (cases c) (simp_all add: create_path_def create_ParamMap_atexit create_string_atexit)

lemma run_calls_flag:
  "isShutdownHookRegistered (run_calls env cs s) = (isShutdownHookRegistered s \<or> cs \<noteq> [])"
  by (induction cs arbitrary: s) (simp_all add: do_call_flag)

lemma run_calls_atexit:
  "atexit_callbacks (run_calls env cs s) =
     atexit_callbacks s @
       (if isShutdownHookRegistered s \<or> cs = [] then [] else [Release_handles])"
  by (induction cs arbitrary: s) (simp_all add: do_call_flag do_call_atexit)



subsection \<open>The effect of \<open>release_handles\<close>\<close>

lemma dlclose_all_dl_calls: "dl_calls (dlclose_all hs s) = dl_calls s @ map Dlclose hs"
  by (induction hs arbitrary: s) simp_all

lemma dlclose_all_handles:
  "loadedLibrariesHandles (dlclose_all hs s) = loadedLibrariesHandles s"
  by (induction hs arbitrary: s) simp_all

subsection \<open>The disabled authentication\<close>

text \<open>
  C3. \<open>AuthFactory::Disabled()\<close> takes no argument and reads no state, so every call
  gives the same value: a non-null pointer to an \<open>AuthDisabled\<close> whose method name is
  \<open>none\<close> and whose provider is non-null, answers \<open>false\<close> to \<open>hasDataForTls\<close>,
  \<open>hasDataForHttp\<close> and \<open>hasDataFromCommand\<close>, and returns the string \<open>none\<close> from
  \<open>getTlsCertificates\<close>, \<open>getTlsPrivateKey\<close>, \<open>getHttpAuthType\<close>, \<open>getHttpHeaders\<close> and
  \<open>getCommandData\<close>.
\<close>

theorem Disabled_is_none:
  "\<exists>a d. (Disabled :: 'p AuthenticationPtr) = Some (AuthDisabledObj a)
     \<and> getAuthMethodName a = ''none''
     \<and> authData a = Some d
     \<and> hasDataForTls d = False \<and> hasDataForHttp d = False \<and> hasDataFromCommand d = False
     \<and> getTlsCertificates d = ''none'' \<and> getTlsPrivateKey d = ''none''
     \<and> getHttpAuthType d = ''none'' \<and> getHttpHeaders d = ''none''
     \<and> getCommandData d = ''none''"
  by (simp add: Disabled_def AuthDisabled_create_def new_AuthDisabled_def
      new_AuthDisabledData_def getAuthMethodName_def)

subsection \<open>Failures of \<open>create\<close>\<close>




subsection \<open>The string path\<close>

text \<open>
  C5. On the string path, once the library has loaded as \<open>h\<close>: when \<open>create\<close> resolves,
  it is called on the string as it was given and its result is returned (what it throws
  is thrown), after one load; when it does not, the result is the one of the map path on
  the parsed string, and the library has been opened twice: \<open>dlopen\<close> was called twice on
  the path and the handle stands twice at the end of the vector.
\<close>

theorem string_path_create_or_fallback:
  assumes "dlopen env path = Some h"
  shows "(\<forall>f. dlsym_create env h = Some f \<longrightarrow>
            fst (create_string env path str s)
              = (case f str of
                   Throws e \<Rightarrow> Throws e
                 | Returns auth \<Rightarrow> Returns (AuthenticationPtr_of auth))
            \<and> loadedLibrariesHandles (snd (create_string env path str s))
                = loadedLibrariesHandles s @ [h]
            \<and> dl_calls (snd (create_string env path str s)) = dl_calls s @ [Dlopen path])
         \<and> (dlsym_create env h = None \<longrightarrow>
            fst (create_string env path str s)
              = fst (create_ParamMap env path (parse_params str) s)
            \<and> loadedLibrariesHandles (snd (create_string env path str s))
                = loadedLibrariesHandles s @ [h, h]
            \<and> dl_calls (snd (create_string env path str s))
                = dl_calls s @ [Dlopen path, Dlopen path])"
  using assms
  by (simp add: create_string_result create_string_handles create_string_dl_calls)

theorem string_path_create_or_fallback_witness:
  "fst (create_string env_string_only ''/lib/auth.so'' ''method:tls,x'' initial_state)
     = Returns (Some (PluginAuthentication ''method:tls,x''))
   \<and> loadedLibrariesHandles
       (snd (create_string env_string_only ''/lib/auth.so'' ''method:tls,x'' initial_state)) = [7]
   \<and> fst (create_string env_map_only ''/lib/auth.so'' ''method:tls,x'' initial_state)
     = Returns (Some (PluginAuthentication ''tls''))
   \<and> loadedLibrariesHandles
       (snd (create_string env_map_only ''/lib/auth.so'' ''method:tls,x'' initial_state)) = [7, 7]
   \<and> dl_calls
       (snd (create_string env_map_only ''/lib/auth.so'' ''method:tls,x'' initial_state))
     = [Dlopen ''/lib/auth.so'', Dlopen ''/lib/auth.so'']"
proof -
  have p: "parse_params ''method:tls,x'' ''method'' = Some ''tls''"
    by (simp add: parse_params_def is_any_of_def Let_def)
  show ?thesis
    using
      string_path_create_or_fallback
        [of env_string_only "''/lib/auth.so''" 7 "''method:tls,x''" initial_state]
      string_path_create_or_fallback
        [of env_map_only "''/lib/auth.so''" 7 "''method:tls,x''" initial_state]
    by (simp add: env_map_only_def env_string_only_def initial_state_def create_ParamMap_result
        AuthenticationPtr_of_def p)
qed

subsection \<open>The shutdown hook\<close>

text \<open>
  C6. After any sequence of calls to \<open>create\<close>, by any of its overloads and from any
  state, the flag is set when it was set before or a call was made, and \<open>atexit\<close> has
  been called once more when the flag was not set and a call was made, and not at all
  otherwise: once the flag is set no call changes it or registers again. From the initial
  state \<open>release_handles\<close> is registered at most once.
\<close>

theorem shutdown_hook_registered_once:
  "isShutdownHookRegistered (run_calls env cs s) = (isShutdownHookRegistered s \<or> cs \<noteq> [])
   \<and> atexit_callbacks (run_calls env cs s) =
       atexit_callbacks s @
         (if isShutdownHookRegistered s \<or> cs = [] then [] else [Release_handles])
   \<and> length (atexit_callbacks (run_calls env cs initial_state)) \<le> 1"
  by (simp add: run_calls_flag run_calls_atexit initial_state_def)

theorem shutdown_hook_registered_once_witness:
  "isShutdownHookRegistered
     (run_calls env_map_only
        [Create_string ''/lib/auth.so'' ''method:tls'', Create_path ''/no/such/module'',
         Create_ParamMap ''/lib/auth.so'' Map.empty] initial_state) = True
   \<and> atexit_callbacks
     (run_calls env_map_only
        [Create_string ''/lib/auth.so'' ''method:tls'', Create_path ''/no/such/module'',
         Create_ParamMap ''/lib/auth.so'' Map.empty] initial_state) = [Release_handles]"
  using shutdown_hook_registered_once
    [of env_map_only
        "[Create_string ''/lib/auth.so'' ''method:tls'', Create_path ''/no/such/module'',
          Create_ParamMap ''/lib/auth.so'' Map.empty]"
        initial_state]
  by (simp add: initial_state_def)

subsection \<open>Releasing the handles\<close>

text \<open>
  C7. \<open>release_handles\<close> calls \<open>dlclose\<close> once on every entry of the vector, in the
  order of the vector, and leaves the vector empty; on an empty vector it changes
  nothing; and a second call right after the first changes nothing more.
\<close>

theorem release_handles_closes_each_once:
  "dl_calls (release_handles s) = dl_calls s @ map Dlclose (loadedLibrariesHandles s)
   \<and> loadedLibrariesHandles (release_handles s) = []
   \<and> release_handles (s\<lparr>loadedLibrariesHandles := []\<rparr>) = s\<lparr>loadedLibrariesHandles := []\<rparr>
   \<and> release_handles (release_handles s) = release_handles s"
  by (simp add: release_handles_def dlclose_all_dl_calls dlclose_all_handles)

subsection \<open>The map path keeps the handle of a failed call\<close>

text \<open>
  C10. On the map path, when the library loads as \<open>h\<close> and the call then fails, because
  \<open>createFromMap\<close> is absent or because it returns \<open>NULL\<close>, the call returns the null
  pointer and the vector of handles has grown by \<open>h\<close> all the same.
\<close>

theorem map_path_failure_keeps_handle:
  assumes "dlopen env path = Some h"
    and "dlsym_createFromMap env h = None
         \<or> (\<exists>f. dlsym_createFromMap env h = Some f \<and> f params = Returns None)"
  shows "fst (create_ParamMap env path params s) = Returns None
         \<and> loadedLibrariesHandles (snd (create_ParamMap env path params s))
             = loadedLibrariesHandles s @ [h]"
  using assms
  by (auto simp: create_ParamMap_result create_ParamMap_handles AuthenticationPtr_of_def)

theorem map_path_failure_keeps_handle_witness:
  "fst (create_ParamMap env_no_symbol ''/lib/auth.so'' [''method'' \<mapsto> ''tls''] initial_state)
     = Returns None
   \<and> loadedLibrariesHandles
       (snd (create_ParamMap env_no_symbol ''/lib/auth.so'' [''method'' \<mapsto> ''tls'']
          initial_state)) = [7]
   \<and> fst (create_ParamMap env_map_only ''/lib/auth.so'' [''user'' \<mapsto> ''u''] initial_state)
     = Returns None
   \<and> loadedLibrariesHandles
       (snd (create_ParamMap env_map_only ''/lib/auth.so'' [''user'' \<mapsto> ''u'']
          initial_state)) = [7]"
  using
    map_path_failure_keeps_handle
      [of env_no_symbol "''/lib/auth.so''" 7 "[''method'' \<mapsto> ''tls'']" initial_state]
    map_path_failure_keeps_handle
      [of env_map_only "''/lib/auth.so''" 7 "[''user'' \<mapsto> ''u'']" initial_state]
  by (simp add: env_map_only_def env_no_symbol_def initial_state_def)

end
